theory Spec2Isabelle
  imports Main
begin

section \<open>Data model (src/types.ts)\<close>

text \<open>
  JavaScript strings are sequences of UTF-16 code units. They are modelled as HOL strings,
  one \<open>char\<close> per code unit; every literal of the source lies in the Latin-1 range, and the
  accented letters are written by their code (\<open>CHR 0xF3\<close> is o-acute, \<open>CHR 0xF1\<close> is
  n-tilde, \<open>CHR 0xED\<close> is i-acute, \<open>CHR 0xE1\<close> is a-acute).
\<close>

datatype NoteType = Tip | Qa | Context

record Note =
  n_id :: string
  n_type :: NoteType
  n_content :: string
  n_question :: "string option"
  n_topic :: "string option"

record SessionRecord =
  s_id :: string
  s_title :: string
  s_date :: int
  s_transcription :: string
  s_notes :: "Note list"
  s_report :: string

section \<open>Inbound events and tool declarations\<close>

text \<open>
  A plain object whose properties are strings: the arguments of a function call (every
  declared parameter has type STRING) and the parsed summary (both properties of the
  response schema have type STRING). A property that is absent reads as \<open>undefined\<close>,
  here \<open>None\<close>.
\<close>

type_synonym js_object = "string \<rightharpoonup> string"

text \<open>Truthiness of a property read: \<open>undefined\<close> and the empty string are falsy.\<close>

definition truthy :: "string option \<Rightarrow> bool" where
  "truthy v = (case v of None \<Rightarrow> False | Some t \<Rightarrow> t \<noteq> [])"

record FunctionDeclaration =
  fd_name :: string
  fd_required :: "string list"

definition addNoteFunctionDeclaration :: FunctionDeclaration where
  "addNoteFunctionDeclaration = \<lparr>fd_name = ''addNote'', fd_required = [''tip'']\<rparr>"

definition answerQuestionFunctionDeclaration :: FunctionDeclaration where
  "answerQuestionFunctionDeclaration =
     \<lparr>fd_name = ''answerQuestion'', fd_required = [''question'', ''answer'']\<rparr>"

definition provideContextFunctionDeclaration :: FunctionDeclaration where
  "provideContextFunctionDeclaration =
     \<lparr>fd_name = ''provideContext'', fd_required = [''topic'', ''explanation'']\<rparr>"

text \<open>
  A function call of a tool-call event. Its arguments object may be absent
  (\<open>undefined\<close>, here \<open>None\<close>); reading a property of an absent object throws.
\<close>

record FunctionCall =
  fc_name :: string
  fc_args :: "js_object option"

datatype js_exception = RequestError | SyntaxError | TypeError

text \<open>
  A message of the live channel, with the three parts \<open>onMessage\<close> reads:
  \<open>serverContent?.inputTranscription\<close> (its text, when the object is there),
  \<open>serverContent?.turnComplete\<close> and \<open>toolCall?.functionCalls\<close>.
\<close>

record LiveServerMessage =
  inputTranscription :: "string option"
  turnComplete :: bool
  functionCalls :: "FunctionCall list option"

section \<open>Component state\<close>

record Settings =
  isVoiceResponseEnabled :: bool
  isContextualizeEnabled :: bool

text \<open>
  \<open>stopSession\<close> is a callback that is made anew in every render in which
  \<open>transcription\<close>, \<open>notes\<close> or \<open>activeAiResponse\<close> changed (its dependency list), and
  it reads these three from the render that made it, not from the current state.
\<close>

record Render =
  r_transcription :: string
  r_notes :: "Note list"
  r_activeAiResponse :: "Note option"

text \<open>
  The \<open>useState\<close> cells of the component that the session logic reads or writes, the
  session reference (\<open>sessionPromiseRef\<close>, holding the tools the channel was opened with),
  the render in which the running session was started (the \<open>onError\<close> callback of the
  channel is made once, inside \<open>startSession\<close>, and calls the \<open>stopSession\<close> of that
  render), and three logs of what the component did to the outside world: how many times
  \<open>crypto.randomUUID()\<close> was called, the utterances handed to the speech synthesiser, and
  the prompts sent to \<open>generateContent\<close>.
\<close>

record AppState =
  isListening :: bool
  transcription :: string
  "notes" :: "Note list"
  timeLeft :: int
  error :: "string option"
  activeAiResponse :: "Note option"
  isGeneratingReport :: bool
  sessionHistory :: "SessionRecord list"
  viewingSession :: "SessionRecord option"
  sessionPromiseRef :: "FunctionDeclaration list option"
  startRender :: Render
  uuidCalls :: nat
  spoken :: "string list"
  prompts :: "string list"

definition MAX_SESSION_TIME_SECONDS :: int where
  "MAX_SESSION_TIME_SECONDS = 600"

text \<open>The state of the first render; \<open>h\<close> is the history loaded from local storage.\<close>

definition initialState :: "SessionRecord list \<Rightarrow> AppState" where
  "initialState h =
     \<lparr>isListening = False, transcription = [], notes = [],
      timeLeft = MAX_SESSION_TIME_SECONDS, error = None, activeAiResponse = None,
      isGeneratingReport = False, sessionHistory = h, viewingSession = None,
      sessionPromiseRef = None,
      startRender = \<lparr>r_transcription = [], r_notes = [], r_activeAiResponse = None\<rparr>,
      uuidCalls = 0, spoken = [], prompts = []\<rparr>"

definition renderOf :: "AppState \<Rightarrow> Render" where
  "renderOf s =
     \<lparr>r_transcription = transcription s, r_notes = notes s,
      r_activeAiResponse = activeAiResponse s\<rparr>"

section \<open>speak\<close>

definition speak :: "Settings \<Rightarrow> string \<Rightarrow> AppState \<Rightarrow> AppState" where
  "speak cfg text s =
     (if \<not> isVoiceResponseEnabled cfg then s else s\<lparr>spoken := spoken s @ [text]\<rparr>)"

section \<open>onMessage\<close>

text \<open>
  \<open>crypto.randomUUID()\<close> is the function \<open>uuid\<close> of the number of calls made before:
  the k-th call returns \<open>uuid k\<close>.
\<close>

text \<open>
  The condition of a branch of the loop body, \<open>fc.name === n && fc.args.f1 && ...\<close>:
  when the name differs nothing else is read; when it matches, the first field is read
  from \<open>fc.args\<close>, which throws a TypeError if the arguments object is absent.
\<close>

definition branchCondition ::
  "FunctionCall \<Rightarrow> string \<Rightarrow> string list \<Rightarrow> js_exception + bool" where
  "branchCondition fc n required =
     (if fc_name fc = n then
        (case fc_args fc of
           None \<Rightarrow> Inl TypeError
         | Some a \<Rightarrow> Inr (list_all (\<lambda>k. truthy (a k)) required))
      else Inr False)"

text \<open>A property of the arguments, read inside a branch (the object is there).\<close>

definition arg :: "FunctionCall \<Rightarrow> string \<Rightarrow> string option" where
  "arg fc k = (case fc_args fc of Some a \<Rightarrow> a k | None \<Rightarrow> None)"

text \<open>
  The body of the loop over the function calls: \<open>Inl\<close> is an exception thrown by it,
  \<open>Inr\<close> the state after it.
\<close>

definition handleFunctionCall ::
  "Settings \<Rightarrow> (nat \<Rightarrow> string) \<Rightarrow> AppState \<Rightarrow> FunctionCall \<Rightarrow> js_exception + AppState" where
  "handleFunctionCall cfg uuid s fc =
     (case branchCondition fc ''addNote'' [''tip''] of
        Inl e \<Rightarrow> Inl e
      | Inr isAddNote \<Rightarrow>
          if isAddNote then
            Inr (let newNote = \<lparr>n_id = uuid (uuidCalls s), n_type = Tip,
                                 n_content = the (arg fc ''tip''),
                                 n_question = None, n_topic = None\<rparr>
                 in speak cfg (''Nota a'' @ [CHR 0xF1] @ ''adida: '' @ n_content newNote)
                      (s\<lparr>uuidCalls := Suc (uuidCalls s), notes := notes s @ [newNote]\<rparr>))
          else
            (case branchCondition fc ''answerQuestion'' [''question'', ''answer''] of
               Inl e \<Rightarrow> Inl e
             | Inr isAnswer \<Rightarrow>
                 if isAnswer then
                   Inr (let newNote = \<lparr>n_id = uuid (uuidCalls s), n_type = Qa,
                                        n_content = the (arg fc ''answer''),
                                        n_question = arg fc ''question'', n_topic = None\<rparr>
                        in speak cfg (n_content newNote)
                             (s\<lparr>uuidCalls := Suc (uuidCalls s),
                                activeAiResponse := Some newNote\<rparr>))
                 else
                   (case branchCondition fc ''provideContext'' [''topic'', ''explanation''] of
                      Inl e \<Rightarrow> Inl e
                    | Inr isContext \<Rightarrow>
                        if isContext then
                          Inr (let newNote = \<lparr>n_id = uuid (uuidCalls s), n_type = Context,
                                               n_content = the (arg fc ''explanation''),
                                               n_question = None,
                                               n_topic = arg fc ''topic''\<rparr>
                               in speak cfg (the (n_topic newNote) @ '': ''
                                             @ n_content newNote)
                                    (s\<lparr>uuidCalls := Suc (uuidCalls s),
                                       activeAiResponse := Some newNote\<rparr>))
                        else Inr s)))"

text \<open>
  The \<open>for (const fc of functionCalls)\<close> loop. An exception thrown by the body ends the
  loop and leaves the callback; the state updates made before it stay. The result is the
  state after the loop and the exception that left it, if any.
\<close>

fun handleFunctionCalls ::
  "Settings \<Rightarrow> (nat \<Rightarrow> string) \<Rightarrow> AppState \<Rightarrow> FunctionCall list
     \<Rightarrow> AppState \<times> js_exception option" where
  "handleFunctionCalls cfg uuid s [] = (s, None)"
| "handleFunctionCalls cfg uuid s (fc # fcs) =
     (case handleFunctionCall cfg uuid s fc of
        Inl e \<Rightarrow> (s, Some e)
      | Inr s' \<Rightarrow> handleFunctionCalls cfg uuid s' fcs)"

definition onMessage ::
  "Settings \<Rightarrow> (nat \<Rightarrow> string) \<Rightarrow> AppState \<Rightarrow> LiveServerMessage
     \<Rightarrow> AppState \<times> js_exception option" where
  "onMessage cfg uuid s message =
     (let s1 = (case inputTranscription message of
                  Some text \<Rightarrow> s\<lparr>transcription := transcription s @ text\<rparr>
                | None \<Rightarrow> s);
          s2 = (if turnComplete message
                then s1\<lparr>transcription := transcription s1 @ '' ''\<rparr> else s1)
      in case functionCalls message of
           Some fcs \<Rightarrow> handleFunctionCalls cfg uuid s2 fcs
         | None \<Rightarrow> (s2, None))"

text \<open>The state in which a message leaves the component.\<close>

definition stateAfter ::
  "Settings \<Rightarrow> (nat \<Rightarrow> string) \<Rightarrow> AppState \<Rightarrow> LiveServerMessage \<Rightarrow> AppState" where
  "stateAfter cfg uuid s message = fst (onMessage cfg uuid s message)"

section \<open>handleArchiveNote\<close>

definition handleArchiveNote :: "AppState \<Rightarrow> AppState" where
  "handleArchiveNote s =
     (case activeAiResponse s of
        Some a \<Rightarrow> s\<lparr>notes := notes s @ [a], activeAiResponse := None\<rparr>
      | None \<Rightarrow> s)"

section \<open>generateSessionReportAndTitle\<close>

text \<open>
  \<open>String.prototype.trim\<close> removes white space and line terminators from both ends; in
  the Latin-1 range these are tab, line feed, vertical tab, form feed, carriage return,
  space and no-break space.
\<close>

definition js_whitespace :: "char \<Rightarrow> bool" where
  "js_whitespace c =
     (c \<in> set [CHR 0x09, CHR 0x0A, CHR 0x0B, CHR 0x0C, CHR 0x0D, CHR 0x20, CHR 0xA0])"

definition trim :: "string \<Rightarrow> string" where
  "trim t = rev (dropWhile js_whitespace (rev (dropWhile js_whitespace t)))"

text \<open>
  What the one-shot summarisation request does, as decided by the remote service and the
  network: the promise of \<open>generateContent\<close> rejects; or it resolves and
  \<open>JSON.parse(response.text)\<close> throws; or the text parses to \<open>null\<close> (reading a property
  of it throws); or it parses to an object.
\<close>

datatype RemoteOutcome =
  Rejected
| Unparseable
| ParsedNull
| ParsedObject js_object

text \<open>The operator \<open>a || b\<close> on a property read.\<close>

definition js_or :: "string option \<Rightarrow> string \<Rightarrow> string" where
  "js_or a b = (if truthy a then the a else b)"

text \<open>A template placeholder \<open>${x}\<close> for an optional string prints \<open>undefined\<close> when absent.\<close>

definition js_show :: "string option \<Rightarrow> string" where
  "js_show v = (case v of Some t \<Rightarrow> t | None \<Rightarrow> ''undefined'')"

definition note_line :: "Note \<Rightarrow> string" where
  "note_line n =
     ''- '' @ (if n_type n = Qa
               then ''P: '' @ js_show (n_question n) @ '' R: '' @ n_content n
               else n_content n)"

fun join :: "string \<Rightarrow> string list \<Rightarrow> string" where
  "join sep [] = []"
| "join sep [x] = x"
| "join sep (x # y # ys) = x @ sep @ join sep (y # ys)"

definition prompt :: "string \<Rightarrow> Note list \<Rightarrow> string" where
  "prompt finalTranscription finalNotes =
     ''Basado en la siguiente transcripci'' @ [CHR 0xF3] @ ''n y notas de una clase o reuni''
     @ [CHR 0xF3] @ ''n, genera un t'' @ [CHR 0xED] @ ''tulo conciso (m'' @ [CHR 0xE1]
     @ ''ximo 10 palabras) y un informe completo en formato Markdown. El informe debe ''
     @ ''estructurar la informaci'' @ [CHR 0xF3] @ ''n clave, los conceptos principales ''
     @ ''discutidos, las preguntas respondidas y las tareas o puntos importantes a recordar.''
     @ [CHR 0x0A, CHR 0x0A] @ ''Transcripci'' @ [CHR 0xF3] @ ''n:'' @ [CHR 0x0A, CHR 0x22]
     @ finalTranscription @ [CHR 0x22, CHR 0x0A, CHR 0x0A] @ ''Notas Tomadas:'' @ [CHR 0x0A]
     @ join [CHR 0x0A] (map note_line finalNotes)"

text \<open>
  \<open>localeNow\<close> is what \<open>new Date().toLocaleString()\<close> returns when the title is built.
\<close>

definition sessionTitle :: "string \<Rightarrow> string" where
  "sessionTitle localeNow = ''Sesi'' @ [CHR 0xF3] @ ''n del '' @ localeNow"

text \<open>The body of the \<open>try\<close> block: \<open>Inl\<close> is an exception thrown inside it.\<close>

definition requestSummary :: "RemoteOutcome \<Rightarrow> string \<Rightarrow> js_exception + string \<times> string" where
  "requestSummary remote localeNow =
     (case remote of
        Rejected \<Rightarrow> Inl RequestError
      | Unparseable \<Rightarrow> Inl SyntaxError
      | ParsedNull \<Rightarrow> Inl TypeError
      | ParsedObject result \<Rightarrow>
          Inr (js_or (result ''title'') (sessionTitle localeNow),
               js_or (result ''report'') ''No se pudo generar el informe.''))"

text \<open>
  The result is the pair \<open>(title, report)\<close> together with the prompts that were sent to
  the remote service during the call (none or one).
\<close>

definition generateSessionReportAndTitle ::
  "RemoteOutcome \<Rightarrow> string \<Rightarrow> string \<Rightarrow> Note list \<Rightarrow> (string \<times> string) \<times> string list" where
  "generateSessionReportAndTitle remote localeNow finalTranscription finalNotes =
     (if trim finalTranscription = [] then
        ((sessionTitle localeNow,
          ''No se grab'' @ [CHR 0xF3] @ '' ninguna transcripci'' @ [CHR 0xF3] @ ''n.''), [])
      else
        (case requestSummary remote localeNow of
           Inr r \<Rightarrow> (r, [prompt finalTranscription finalNotes])
         | Inl err \<Rightarrow>
             ((sessionTitle localeNow @ '' (Error)'',
               ''Ocurri'' @ [CHR 0xF3] @ '' un error al generar el informe de la sesi''
               @ [CHR 0xF3] @ ''n.''),
              [prompt finalTranscription finalNotes])))"

section \<open>stopSession\<close>

text \<open>
  \<open>now\<close> is the value of \<open>Date.now()\<close> when the record is built. \<open>stopSessionIn\<close> is
  the instance of the callback made in render \<open>r\<close>, run when the state is \<open>s\<close>: the
  transcript and the notes are read from \<open>r\<close>, the functional update of the history and
  the resets act on \<open>s\<close>.
\<close>

definition finalNotesIn :: "Render \<Rightarrow> Note list" where
  "finalNotesIn r =
     (case r_activeAiResponse r of Some a \<Rightarrow> r_notes r @ [a] | None \<Rightarrow> r_notes r)"

definition stopSessionIn ::
  "(nat \<Rightarrow> string) \<Rightarrow> RemoteOutcome \<Rightarrow> string \<Rightarrow> int \<Rightarrow> Render \<Rightarrow> AppState \<Rightarrow> AppState" where
  "stopSessionIn uuid remote localeNow now r s =
     (let finalTranscription = r_transcription r;
          finalNotes = finalNotesIn r;
          (tr, sent) = generateSessionReportAndTitle remote localeNow
                         finalTranscription finalNotes;
          newRecord = \<lparr>s_id = uuid (uuidCalls s), s_title = fst tr, s_date = now,
                       s_transcription = finalTranscription, s_notes = finalNotes,
                       s_report = snd tr\<rparr>
      in s\<lparr>sessionHistory := newRecord # sessionHistory s,
           uuidCalls := Suc (uuidCalls s),
           prompts := prompts s @ sent,
           sessionPromiseRef := None,
           isListening := False,
           isGeneratingReport := False,
           transcription := [],
           notes := [],
           activeAiResponse := None\<rparr>)"

text \<open>
  The stop button and the timeout effect call the instance of the current render, which
  reads the current transcript and notes.
\<close>

definition stopSession ::
  "(nat \<Rightarrow> string) \<Rightarrow> RemoteOutcome \<Rightarrow> string \<Rightarrow> int \<Rightarrow> AppState \<Rightarrow> AppState" where
  "stopSession uuid remote localeNow now s =
     stopSessionIn uuid remote localeNow now (renderOf s) s"

text \<open>The archived notes followed by the active note, if any, of a state.\<close>

definition finalNotesOf :: "AppState \<Rightarrow> Note list" where
  "finalNotesOf s =
     (case activeAiResponse s of Some a \<Rightarrow> notes s @ [a] | None \<Rightarrow> notes s)"

text \<open>
  The \<open>onError\<close> callback of the channel: it sets the error message and calls the
  \<open>stopSession\<close> of the render in which the session was started.
\<close>

definition onError ::
  "(nat \<Rightarrow> string) \<Rightarrow> RemoteOutcome \<Rightarrow> string \<Rightarrow> int \<Rightarrow> AppState \<Rightarrow> AppState" where
  "onError uuid remote localeNow now s =
     stopSessionIn uuid remote localeNow now (startRender s)
       (s\<lparr>error := Some (''Ocurri'' @ [CHR 0xF3] @ '' un error con la sesi''
                          @ [CHR 0xF3] @ ''n.'')\<rparr>)"

section \<open>startSession\<close>

definition sessionTools :: "Settings \<Rightarrow> FunctionDeclaration list" where
  "sessionTools cfg =
     [addNoteFunctionDeclaration, answerQuestionFunctionDeclaration]
     @ (if isContextualizeEnabled cfg then [provideContextFunctionDeclaration] else [])"

text \<open>The synchronous first line of \<open>startSession\<close>, before the first \<open>await\<close>.\<close>

definition startSessionReset :: "AppState \<Rightarrow> AppState" where
  "startSessionReset s =
     s\<lparr>error := None, transcription := [], notes := [], activeAiResponse := None,
       timeLeft := MAX_SESSION_TIME_SECONDS, isListening := True, viewingSession := None\<rparr>"

text \<open>
  The \<open>try\<close> block that follows. The environment decides how far it gets: the request
  for the microphone fails; or the channel is opened (with the tools of the session and
  with the callbacks made in this call, which belongs to render \<open>r\<close>) and the set-up of
  the audio graph or of the timer fails; or everything is set up. On a failure the
  \<open>catch\<close> branch runs.
\<close>

datatype Acquisition = MicrophoneFailed | AudioFailed | Acquired

definition startSessionAcquire ::
  "Settings \<Rightarrow> Acquisition \<Rightarrow> Render \<Rightarrow> AppState \<Rightarrow> AppState" where
  "startSessionAcquire cfg acq r s =
     (case acq of
        MicrophoneFailed \<Rightarrow>
          s\<lparr>error := Some (''No se pudo acceder al micr'' @ [CHR 0xF3] @ ''fono.''),
            isListening := False\<rparr>
      | AudioFailed \<Rightarrow>
          s\<lparr>sessionPromiseRef := Some (sessionTools cfg), startRender := r,
            error := Some (''No se pudo acceder al micr'' @ [CHR 0xF3] @ ''fono.''),
            isListening := False\<rparr>
      | Acquired \<Rightarrow>
          s\<lparr>sessionPromiseRef := Some (sessionTools cfg), startRender := r\<rparr>)"

definition startSession :: "Settings \<Rightarrow> Acquisition \<Rightarrow> AppState \<Rightarrow> AppState" where
  "startSession cfg acq s = startSessionAcquire cfg acq (renderOf s) (startSessionReset s)"

section \<open>Runs of the component\<close>

text \<open>
  Everything that changes the state above: the user starts a session, a message arrives,
  the user archives the active card, the timer ticks, the session is stopped by the
  button or the timeout, the channel reports an error. Each event carries what the
  environment decides at that moment.
\<close>

datatype Event =
  Start Settings Acquisition
| Message Settings LiveServerMessage
| Archive
| Tick
| Stop RemoteOutcome string int
| ChannelError RemoteOutcome string int

fun step :: "(nat \<Rightarrow> string) \<Rightarrow> AppState \<Rightarrow> Event \<Rightarrow> AppState" where
  "step uuid s (Start cfg acq) = startSession cfg acq s"
| "step uuid s (Message cfg m) = stateAfter cfg uuid s m"
| "step uuid s Archive = handleArchiveNote s"
| "step uuid s Tick = s\<lparr>timeLeft := timeLeft s - 1\<rparr>"
| "step uuid s (Stop remote localeNow now) = stopSession uuid remote localeNow now s"
| "step uuid s (ChannelError remote localeNow now) = onError uuid remote localeNow now s"

definition run :: "(nat \<Rightarrow> string) \<Rightarrow> SessionRecord list \<Rightarrow> Event list \<Rightarrow> AppState" where
  "run uuid h evs = foldl (step uuid) (initialState h) evs"

text \<open>The two transcript events of the channel, as messages.\<close>

definition transcriptDelta :: "string \<Rightarrow> LiveServerMessage" where
  "transcriptDelta text =
     \<lparr>inputTranscription = Some text, turnComplete = False, functionCalls = None\<rparr>"

definition turnCompleteMsg :: LiveServerMessage where
  "turnCompleteMsg = \<lparr>inputTranscription = None, turnComplete = True, functionCalls = None\<rparr>"

definition toolCall :: "FunctionCall list \<Rightarrow> LiveServerMessage" where
  "toolCall fcs = \<lparr>inputTranscription = None, turnComplete = False, functionCalls = Some fcs\<rparr>"

text \<open>
  The settings of the first render, and a sample identifier source that never repeats
  (the k-th identifier is \<open>u\<close> followed by k times \<open>x\<close>), used in the examples below.
\<close>

definition defaultSettings :: Settings where
  "defaultSettings = \<lparr>isVoiceResponseEnabled = False, isContextualizeEnabled = True\<rparr>"

definition sampleUuid :: "nat \<Rightarrow> string" where
  "sampleUuid k = CHR ''u'' # replicate k CHR ''x''"

text \<open>
  Sample calls: three well-formed ones, three that the handler drops, and an addNote call
  without an arguments object.
\<close>

definition sampleTip :: FunctionCall where
  "sampleTip = \<lparr>fc_name = ''addNote'', fc_args = Some [''tip'' \<mapsto> ''Repasar el tema 3'']\<rparr>"

definition sampleAnswer :: FunctionCall where
  "sampleAnswer =
     \<lparr>fc_name = ''answerQuestion'',
      fc_args = Some [''question'' \<mapsto> [CHR 0xBF] @ ''Qu'' @ [CHR 0xE9] @ '' es X?'',
                      ''answer'' \<mapsto> ''Y'']\<rparr>"

definition sampleContext :: FunctionCall where
  "sampleContext =
     \<lparr>fc_name = ''provideContext'',
      fc_args = Some [''topic'' \<mapsto> ''Taponamiento'',
                      ''explanation'' \<mapsto> ''Compresion'']\<rparr>"

definition tipMissing :: FunctionCall where
  "tipMissing = \<lparr>fc_name = ''addNote'', fc_args = Some Map.empty\<rparr>"

definition answerMissing :: FunctionCall where
  "answerMissing =
     \<lparr>fc_name = ''answerQuestion'', fc_args = Some [''question'' \<mapsto> ''Por que?'']\<rparr>"

definition unknownName :: FunctionCall where
  "unknownName = \<lparr>fc_name = ''removeNote'', fc_args = Some [''tip'' \<mapsto> ''Repasar'']\<rparr>"

definition argsMissing :: FunctionCall where
  "argsMissing = \<lparr>fc_name = ''addNote'', fc_args = None\<rparr>"

text \<open>A state in the middle of a session: some transcript, one archived tip, one active card.\<close>

definition sampleState :: AppState where
  "sampleState =
     run sampleUuid []
       [Start defaultSettings Acquired,
        Message defaultSettings (transcriptDelta ''Hola''),
        Message defaultSettings (toolCall [sampleTip, sampleContext])]"

text \<open>The settings with contextualisation switched off, and a sample date text.\<close>

definition contextOff :: Settings where
  "contextOff = \<lparr>isVoiceResponseEnabled = False, isContextualizeEnabled = False\<rparr>"

definition sampleDate :: string where
  "sampleDate = ''2/11/2026, 10:00:00''"

definition sampleSummary :: js_object where
  "sampleSummary = [''title'' \<mapsto> ''Clase de cardiolog'' @ [CHR 0xED] @ ''a'',
                    ''report'' \<mapsto> ''# Informe'']"

section \<open>Vocabulary of the properties\<close>

text \<open>
  The valid calls of the three kinds: the name is the declared one and every required
  field is there and not empty (so the arguments object is there).
\<close>

definition validAddNote :: "FunctionCall \<Rightarrow> bool" where
  "validAddNote fc = (fc_name fc = ''addNote'' \<and> truthy (arg fc ''tip''))"

definition validAnswerQuestion :: "FunctionCall \<Rightarrow> bool" where
  "validAnswerQuestion fc =
     (fc_name fc = ''answerQuestion'' \<and> truthy (arg fc ''question'')
      \<and> truthy (arg fc ''answer''))"

definition validProvideContext :: "FunctionCall \<Rightarrow> bool" where
  "validProvideContext fc =
     (fc_name fc = ''provideContext'' \<and> truthy (arg fc ''topic'')
      \<and> truthy (arg fc ''explanation''))"

text \<open>
  A call is malformed when its name is none of the three declared names, or when a field
  that the declaration of that name lists as required is missing (or empty); every
  required field is missing when the arguments object is. A call is recognised when its
  name is one of the three.
\<close>

definition allDeclarations :: "FunctionDeclaration list" where
  "allDeclarations =
     [addNoteFunctionDeclaration, answerQuestionFunctionDeclaration,
      provideContextFunctionDeclaration]"

definition malformed :: "FunctionCall \<Rightarrow> bool" where
  "malformed fc =
     (case find (\<lambda>d. fd_name d = fc_name fc) allDeclarations of
        None \<Rightarrow> True
      | Some d \<Rightarrow> list_ex (\<lambda>k. \<not> truthy (arg fc k)) (fd_required d))"

definition recognised :: "FunctionCall \<Rightarrow> bool" where
  "recognised fc = (fc_name fc \<in> set (map fd_name allDeclarations))"

definition callsOf :: "LiveServerMessage \<Rightarrow> FunctionCall list" where
  "callsOf m = (case functionCalls m of Some fcs \<Rightarrow> fcs | None \<Rightarrow> [])"

text \<open>The tip notes made from a list of calls, the first with the k-th identifier.\<close>

fun tipNotes :: "(nat \<Rightarrow> string) \<Rightarrow> nat \<Rightarrow> FunctionCall list \<Rightarrow> Note list" where
  "tipNotes uuid k [] = []"
| "tipNotes uuid k (fc # fcs) =
     \<lparr>n_id = uuid k, n_type = Tip, n_content = the (arg fc ''tip''),
      n_question = None, n_topic = None\<rparr> # tipNotes uuid (Suc k) fcs"

definition qaNote :: "(nat \<Rightarrow> string) \<Rightarrow> nat \<Rightarrow> FunctionCall \<Rightarrow> Note" where
  "qaNote uuid k fc =
     \<lparr>n_id = uuid k, n_type = Qa, n_content = the (arg fc ''answer''),
      n_question = arg fc ''question'', n_topic = None\<rparr>"

definition contextNote :: "(nat \<Rightarrow> string) \<Rightarrow> nat \<Rightarrow> FunctionCall \<Rightarrow> Note" where
  "contextNote uuid k fc =
     \<lparr>n_id = uuid k, n_type = Context, n_content = the (arg fc ''explanation''),
      n_question = None, n_topic = arg fc ''topic''\<rparr>"

text \<open>
  Every note of the session (archived, then active) carries an identifier drawn earlier,
  and no two of them carry the same one.
\<close>

definition notesFresh :: "(nat \<Rightarrow> string) \<Rightarrow> AppState \<Rightarrow> bool" where
  "notesFresh uuid s =
     (distinct (map n_id (finalNotesOf s))
      \<and> n_id ` set (finalNotesOf s) \<subseteq> uuid ` {..<uuidCalls s})"

text \<open>
  Every record of the history that was not loaded at start-up (it is not in \<open>h\<close>) carries
  an identifier drawn earlier.
\<close>

definition historyFresh :: "(nat \<Rightarrow> string) \<Rightarrow> SessionRecord list \<Rightarrow> AppState \<Rightarrow> bool" where
  "historyFresh uuid h s =
     (s_id ` (set (sessionHistory s) - set h) \<subseteq> uuid ` {..<uuidCalls s})"

section \<open>Basic facts about the handlers\<close>

lemma speak_fields [simp]:
  "transcription (speak cfg text s) = transcription s"
  "notes (speak cfg text s) = notes s"
  "activeAiResponse (speak cfg text s) = activeAiResponse s"
  "uuidCalls (speak cfg text s) = uuidCalls s"
  "sessionHistory (speak cfg text s) = sessionHistory s"
  "error (speak cfg text s) = error s"
  "timeLeft (speak cfg text s) = timeLeft s"
  "prompts (speak cfg text s) = prompts s"
  "sessionPromiseRef (speak cfg text s) = sessionPromiseRef s"
  by (simp_all add: speak_def)

lemma branchCondition_absent:
  "fc_args fc = None \<Longrightarrow>
   branchCondition fc n required = (if fc_name fc = n then Inl TypeError else Inr False)"
  by (simp add: branchCondition_def)

lemma branchCondition_present:
  "fc_args fc = Some a \<Longrightarrow>
   branchCondition fc n required =
     Inr (fc_name fc = n \<and> list_all (\<lambda>k. truthy (arg fc k)) required)"
  by (simp add: branchCondition_def arg_def)

lemma valid_has_args:
  "validAddNote fc \<or> validAnswerQuestion fc \<or> validProvideContext fc \<Longrightarrow>
   \<exists>a. fc_args fc = Some a"
  by (cases "fc_args fc")
     (auto simp: validAddNote_def validAnswerQuestion_def validProvideContext_def arg_def
        truthy_def)

lemma handleFunctionCall_addNote:
  assumes "validAddNote fc"
  shows "handleFunctionCall cfg uuid s fc =
     Inr (speak cfg (''Nota a'' @ [CHR 0xF1] @ ''adida: '' @ the (arg fc ''tip''))
            (s\<lparr>uuidCalls := Suc (uuidCalls s),
               notes := notes s @ tipNotes uuid (uuidCalls s) [fc]\<rparr>))"
proof -
  from assms valid_has_args obtain a where "fc_args fc = Some a" by blast
  with assms show ?thesis
    by (simp add: handleFunctionCall_def branchCondition_present validAddNote_def Let_def)
qed

lemma handleFunctionCall_answerQuestion:
  assumes "validAnswerQuestion fc"
  shows "handleFunctionCall cfg uuid s fc =
     Inr (speak cfg (the (arg fc ''answer''))
            (s\<lparr>uuidCalls := Suc (uuidCalls s),
               activeAiResponse := Some (qaNote uuid (uuidCalls s) fc)\<rparr>))"
proof -
  from assms valid_has_args obtain a where "fc_args fc = Some a" by blast
  with assms show ?thesis
    by (simp add: handleFunctionCall_def branchCondition_present validAnswerQuestion_def
          qaNote_def Let_def)
qed

lemma handleFunctionCall_provideContext:
  assumes "validProvideContext fc"
  shows "handleFunctionCall cfg uuid s fc =
     Inr (speak cfg (the (arg fc ''topic'') @ '': '' @ the (arg fc ''explanation''))
            (s\<lparr>uuidCalls := Suc (uuidCalls s),
               activeAiResponse := Some (contextNote uuid (uuidCalls s) fc)\<rparr>))"
proof -
  from assms valid_has_args obtain a where "fc_args fc = Some a" by blast
  with assms show ?thesis
    by (simp add: handleFunctionCall_def branchCondition_present validProvideContext_def
          contextNote_def Let_def)
qed

lemma recognised_iff:
  "recognised fc \<longleftrightarrow>
     fc_name fc = ''addNote'' \<or> fc_name fc = ''answerQuestion''
     \<or> fc_name fc = ''provideContext''"
  by (auto simp: recognised_def allDeclarations_def addNoteFunctionDeclaration_def
        answerQuestionFunctionDeclaration_def provideContextFunctionDeclaration_def)

lemma handleFunctionCall_throws:
  assumes "recognised fc" and "fc_args fc = None"
  shows "handleFunctionCall cfg uuid s fc = Inl TypeError"
  using assms
  by (auto simp: recognised_iff handleFunctionCall_def branchCondition_absent)

lemma handleFunctionCall_invalid:
  assumes "\<not> validAddNote fc" "\<not> validAnswerQuestion fc" "\<not> validProvideContext fc"
    and "fc_args fc \<noteq> None \<or> \<not> recognised fc"
  shows "handleFunctionCall cfg uuid s fc = Inr s"
proof (cases "fc_args fc")
  case None
  with assms(4) have "\<not> recognised fc" by simp
  with None show ?thesis
    by (simp add: recognised_iff handleFunctionCall_def branchCondition_absent)
next
  case (Some a)
  from assms(1) have c1: "branchCondition fc ''addNote'' [''tip''] = Inr False"
    by (simp add: branchCondition_present [OF Some] validAddNote_def)
  from assms(2)
  have c2: "branchCondition fc ''answerQuestion'' [''question'', ''answer''] = Inr False"
    by (simp add: branchCondition_present [OF Some] validAnswerQuestion_def)
  from assms(3)
  have c3: "branchCondition fc ''provideContext'' [''topic'', ''explanation''] = Inr False"
    by (simp add: branchCondition_present [OF Some] validProvideContext_def)
  show ?thesis
    by (simp add: handleFunctionCall_def c1 c2 c3)
qed

text \<open>The five things the loop body can do.\<close>

lemma handleFunctionCall_cases:
  obtains (throws) "recognised fc" "fc_args fc = None"
      "handleFunctionCall cfg uuid s fc = Inl TypeError"
    | (tip) "validAddNote fc"
      "handleFunctionCall cfg uuid s fc =
         Inr (speak cfg (''Nota a'' @ [CHR 0xF1] @ ''adida: '' @ the (arg fc ''tip''))
                (s\<lparr>uuidCalls := Suc (uuidCalls s),
                   notes := notes s @ tipNotes uuid (uuidCalls s) [fc]\<rparr>))"
    | (qa) "validAnswerQuestion fc"
      "handleFunctionCall cfg uuid s fc =
         Inr (speak cfg (the (arg fc ''answer''))
                (s\<lparr>uuidCalls := Suc (uuidCalls s),
                   activeAiResponse := Some (qaNote uuid (uuidCalls s) fc)\<rparr>))"
    | (ctx) "validProvideContext fc"
      "handleFunctionCall cfg uuid s fc =
         Inr (speak cfg (the (arg fc ''topic'') @ '': '' @ the (arg fc ''explanation''))
                (s\<lparr>uuidCalls := Suc (uuidCalls s),
                   activeAiResponse := Some (contextNote uuid (uuidCalls s) fc)\<rparr>))"
    | (dropped) "\<not> validAddNote fc" "\<not> validAnswerQuestion fc" "\<not> validProvideContext fc"
      "handleFunctionCall cfg uuid s fc = Inr s"
proof -
  consider (v1) "validAddNote fc" | (v2) "validAnswerQuestion fc"
    | (v3) "validProvideContext fc"
    | (t) "\<not> validAddNote fc" "\<not> validAnswerQuestion fc" "\<not> validProvideContext fc"
        "recognised fc" "fc_args fc = None"
    | (d) "\<not> validAddNote fc" "\<not> validAnswerQuestion fc" "\<not> validProvideContext fc"
        "fc_args fc \<noteq> None \<or> \<not> recognised fc"
    by blast
  then show thesis
  proof cases
    case v1
    from tip [OF v1 handleFunctionCall_addNote [OF v1]] show ?thesis .
  next
    case v2
    from qa [OF v2 handleFunctionCall_answerQuestion [OF v2]] show ?thesis .
  next
    case v3
    from ctx [OF v3 handleFunctionCall_provideContext [OF v3]] show ?thesis .
  next
    case t
    from throws [OF t(4,5) handleFunctionCall_throws [OF t(4,5)]] show ?thesis .
  next
    case d
    from dropped [OF d(1-3) handleFunctionCall_invalid [OF d]] show ?thesis .
  qed
qed

lemma handleFunctionCall_frame:
  assumes "handleFunctionCall cfg uuid s fc = Inr s'"
  shows "transcription s' = transcription s \<and> sessionHistory s' = sessionHistory s
         \<and> uuidCalls s \<le> uuidCalls s' \<and> error s' = error s"
proof (cases rule: handleFunctionCall_cases [of fc cfg uuid s])
  case throws
  with assms show ?thesis by simp
next
  case tip
  with assms have "s' = speak cfg (''Nota a'' @ [CHR 0xF1] @ ''adida: '' @ the (arg fc ''tip''))
                (s\<lparr>uuidCalls := Suc (uuidCalls s),
                   notes := notes s @ tipNotes uuid (uuidCalls s) [fc]\<rparr>)"
    by simp
  then show ?thesis by simp
next
  case qa
  with assms have "s' = speak cfg (the (arg fc ''answer''))
                (s\<lparr>uuidCalls := Suc (uuidCalls s),
                   activeAiResponse := Some (qaNote uuid (uuidCalls s) fc)\<rparr>)"
    by simp
  then show ?thesis by simp
next
  case ctx
  with assms have "s' = speak cfg (the (arg fc ''topic'') @ '': '' @ the (arg fc ''explanation''))
                (s\<lparr>uuidCalls := Suc (uuidCalls s),
                   activeAiResponse := Some (contextNote uuid (uuidCalls s) fc)\<rparr>)"
    by simp
  then show ?thesis by simp
next
  case dropped
  with assms show ?thesis by simp
qed

lemma handleFunctionCalls_transcription [simp]:
  "transcription (fst (handleFunctionCalls cfg uuid s fcs)) = transcription s"
proof (induction fcs arbitrary: s)
  case Nil
  then show ?case by simp
next
  case (Cons fc fcs)
  show ?case
  proof (cases "handleFunctionCall cfg uuid s fc")
    case (Inl e)
    then show ?thesis by simp
  next
    case (Inr s')
    with Cons.IH [of s'] handleFunctionCall_frame [OF Inr] show ?thesis by simp
  qed
qed

lemma onMessage_transcription:
  "transcription (fst (onMessage cfg uuid s m)) =
     transcription s
     @ (case inputTranscription m of Some text \<Rightarrow> text | None \<Rightarrow> [])
     @ (if turnComplete m then '' '' else [])"
  by (simp add: onMessage_def Let_def split: option.split)

lemma stateAfter_transcription:
  "transcription (stateAfter cfg uuid s m) =
     transcription s
     @ (case inputTranscription m of Some text \<Rightarrow> text | None \<Rightarrow> [])
     @ (if turnComplete m then '' '' else [])"
  by (simp add: stateAfter_def onMessage_transcription)

lemma malformed_invalid:
  assumes "malformed fc"
  shows "\<not> validAddNote fc \<and> \<not> validAnswerQuestion fc \<and> \<not> validProvideContext fc"
proof -
  consider (a) "fc_name fc = ''addNote''" | (q) "fc_name fc = ''answerQuestion''"
    | (c) "fc_name fc = ''provideContext''"
    | (other) "fc_name fc \<noteq> ''addNote''" "fc_name fc \<noteq> ''answerQuestion''"
        "fc_name fc \<noteq> ''provideContext''"
    by blast
  then show ?thesis
  proof cases
    case a
    with assms show ?thesis
      by (simp add: malformed_def allDeclarations_def addNoteFunctionDeclaration_def
            validAddNote_def validAnswerQuestion_def validProvideContext_def)
  next
    case q
    with assms show ?thesis
      by (auto simp: malformed_def allDeclarations_def addNoteFunctionDeclaration_def
            answerQuestionFunctionDeclaration_def
            validAddNote_def validAnswerQuestion_def validProvideContext_def)
  next
    case c
    with assms show ?thesis
      by (auto simp: malformed_def allDeclarations_def addNoteFunctionDeclaration_def
            answerQuestionFunctionDeclaration_def provideContextFunctionDeclaration_def
            validAddNote_def validAnswerQuestion_def validProvideContext_def)
  next
    case other
    then show ?thesis
      by (simp add: validAddNote_def validAnswerQuestion_def validProvideContext_def)
  qed
qed

text \<open>A malformed call that does not make the loop body throw.\<close>

lemma handleFunctionCall_malformed:
  "malformed fc \<Longrightarrow> fc_args fc \<noteq> None \<or> \<not> recognised fc \<Longrightarrow>
   handleFunctionCall cfg uuid s fc = Inr s"
  by (simp add: malformed_invalid handleFunctionCall_invalid)

lemma handleFunctionCalls_malformed:
  "list_all (\<lambda>fc. malformed fc \<and> (fc_args fc \<noteq> None \<or> \<not> recognised fc)) fcs \<Longrightarrow>
   handleFunctionCalls cfg uuid s fcs = (s, None)"
  by (induction fcs arbitrary: s) (simp_all add: handleFunctionCall_malformed)

lemma sampleState_eq:
  "sampleState =
     \<lparr>isListening = True, transcription = ''Hola'',
      notes = tipNotes sampleUuid 0 [sampleTip],
      timeLeft = 600, error = None,
      activeAiResponse = Some (contextNote sampleUuid 1 sampleContext),
      isGeneratingReport = False, sessionHistory = [], viewingSession = None,
      sessionPromiseRef = Some (sessionTools defaultSettings),
      startRender = \<lparr>r_transcription = [], r_notes = [], r_activeAiResponse = None\<rparr>,
      uuidCalls = 2, spoken = [], prompts = []\<rparr>"
  by (simp add: sampleState_def run_def initialState_def startSession_def renderOf_def
        startSessionReset_def startSessionAcquire_def MAX_SESSION_TIME_SECONDS_def
        stateAfter_def onMessage_def transcriptDelta_def toolCall_def handleFunctionCall_def
        branchCondition_def arg_def
        sampleTip_def sampleContext_def truthy_def speak_def defaultSettings_def
        contextNote_def Let_def)

lemma sample_calls_valid:
  "validAddNote sampleTip" "validAnswerQuestion sampleAnswer"
  "validProvideContext sampleContext"
  by (simp_all add: validAddNote_def validAnswerQuestion_def validProvideContext_def
        sampleTip_def sampleAnswer_def sampleContext_def truthy_def arg_def)

lemma tipNotes_append:
  "tipNotes uuid k (xs @ ys) = tipNotes uuid k xs @ tipNotes uuid (k + length xs) ys"
  by (induction xs arbitrary: k) simp_all

lemma length_tipNotes [simp]: "length (tipNotes uuid k fcs) = length fcs"
  by (induction fcs arbitrary: k) simp_all

lemma content_tipNotes [simp]:
  "map n_content (tipNotes uuid k fcs) = map (\<lambda>fc. the (arg fc ''tip'')) fcs"
  by (induction fcs arbitrary: k) simp_all

text \<open>An addNote call that carries an arguments object.\<close>

lemma handleFunctionCall_addNote_name:
  assumes "fc_name fc = ''addNote''" and "fc_args fc \<noteq> None"
  shows "handleFunctionCall cfg uuid s fc =
           Inr (if validAddNote fc
                then speak cfg (''Nota a'' @ [CHR 0xF1] @ ''adida: '' @ the (arg fc ''tip''))
                       (s\<lparr>uuidCalls := Suc (uuidCalls s),
                          notes := notes s @ tipNotes uuid (uuidCalls s) [fc]\<rparr>)
                else s)"
proof (cases "validAddNote fc")
  case True
  then show ?thesis by (simp add: handleFunctionCall_addNote)
next
  case False
  with assms have "handleFunctionCall cfg uuid s fc = Inr s"
    by (intro handleFunctionCall_invalid)
       (simp_all add: validAnswerQuestion_def validProvideContext_def)
  with False show ?thesis by simp
qed

lemma handleFunctionCalls_addNote:
  "list_all (\<lambda>fc. fc_name fc = ''addNote'' \<and> fc_args fc \<noteq> None) fcs \<Longrightarrow>
   snd (handleFunctionCalls cfg uuid s fcs) = None
   \<and> notes (fst (handleFunctionCalls cfg uuid s fcs)) =
       notes s @ tipNotes uuid (uuidCalls s) (filter validAddNote fcs)
   \<and> uuidCalls (fst (handleFunctionCalls cfg uuid s fcs)) =
       uuidCalls s + length (filter validAddNote fcs)
   \<and> activeAiResponse (fst (handleFunctionCalls cfg uuid s fcs)) = activeAiResponse s"
proof (induction fcs arbitrary: s)
  case Nil
  then show ?case by simp
next
  case (Cons fc fcs)
  then have name: "fc_name fc = ''addNote''" and args: "fc_args fc \<noteq> None"
    and rest: "list_all (\<lambda>fc. fc_name fc = ''addNote'' \<and> fc_args fc \<noteq> None) fcs"
    by simp_all
  note one = handleFunctionCall_addNote_name [OF name args, of cfg uuid s]
  show ?case
  proof (cases "validAddNote fc")
    case True
    let ?s1 = "speak cfg (''Nota a'' @ [CHR 0xF1] @ ''adida: '' @ the (arg fc ''tip''))
                 (s\<lparr>uuidCalls := Suc (uuidCalls s),
                    notes := notes s @ tipNotes uuid (uuidCalls s) [fc]\<rparr>)"
    from one True have step: "handleFunctionCall cfg uuid s fc = Inr ?s1" by simp
    from Cons.IH [OF rest, of ?s1] step True show ?thesis by simp
  next
    case False
    with one have step: "handleFunctionCall cfg uuid s fc = Inr s" by simp
    from Cons.IH [OF rest, of s] step False show ?thesis by simp
  qed
qed

lemma stateAfter_addNote:
  assumes "list_all (\<lambda>fc. fc_name fc = ''addNote'' \<and> fc_args fc \<noteq> None) (callsOf m)"
  shows "snd (onMessage cfg uuid s m) = None"
    and "notes (stateAfter cfg uuid s m) =
           notes s @ tipNotes uuid (uuidCalls s) (filter validAddNote (callsOf m))"
    and "uuidCalls (stateAfter cfg uuid s m) =
           uuidCalls s + length (filter validAddNote (callsOf m))"
    and "activeAiResponse (stateAfter cfg uuid s m) = activeAiResponse s"
  using assms handleFunctionCalls_addNote [of "callsOf m" cfg uuid]
  by (simp_all add: stateAfter_def onMessage_def callsOf_def Let_def split: option.splits)

lemma messages_addNote:
  "list_all (\<lambda>m. list_all (\<lambda>fc. fc_name fc = ''addNote'' \<and> fc_args fc \<noteq> None)
                     (callsOf m)) ms \<Longrightarrow>
   notes (foldl (stateAfter cfg uuid) s ms) =
     notes s @ tipNotes uuid (uuidCalls s) (filter validAddNote (concat (map callsOf ms)))
   \<and> uuidCalls (foldl (stateAfter cfg uuid) s ms) =
       uuidCalls s + length (filter validAddNote (concat (map callsOf ms)))
   \<and> activeAiResponse (foldl (stateAfter cfg uuid) s ms) = activeAiResponse s"
proof (induction ms arbitrary: s)
  case Nil
  then show ?case by simp
next
  case (Cons m ms)
  then have first: "list_all (\<lambda>fc. fc_name fc = ''addNote'' \<and> fc_args fc \<noteq> None) (callsOf m)"
    and rest: "list_all (\<lambda>m. list_all (\<lambda>fc. fc_name fc = ''addNote'' \<and> fc_args fc \<noteq> None)
                                (callsOf m)) ms"
    by simp_all
  let ?s1 = "stateAfter cfg uuid s m"
  note one = stateAfter_addNote [OF first, of cfg uuid s]
  note ih = Cons.IH [OF rest, of ?s1]
  have "tipNotes uuid (uuidCalls s) (filter validAddNote (concat (map callsOf (m # ms)))) =
          tipNotes uuid (uuidCalls s) (filter validAddNote (callsOf m))
          @ tipNotes uuid (uuidCalls ?s1) (filter validAddNote (concat (map callsOf ms)))"
    by (simp add: tipNotes_append one(3))
  with ih one show ?case by simp
qed

lemma trim_whitespace_only: "list_all js_whitespace t \<Longrightarrow> trim t = []"
proof -
  assume "list_all js_whitespace t"
  then have d: "dropWhile js_whitespace t = []"
    by (simp add: list_all_iff)
  show ?thesis unfolding trim_def d by simp
qed

lemma trim_empty_iff: "trim t = [] \<longleftrightarrow> list_all js_whitespace t"
proof
  assume "trim t = []"
  then have "dropWhile js_whitespace (rev (dropWhile js_whitespace t)) = []"
    by (simp add: trim_def)
  then have all: "\<forall>c \<in> set (dropWhile js_whitespace t). js_whitespace c"
    by simp
  have "dropWhile js_whitespace t = []"
  proof (cases "dropWhile js_whitespace t")
    case Nil
    then show ?thesis .
  next
    case (Cons c cs)
    then have "\<not> js_whitespace c"
      using hd_dropWhile [of js_whitespace t] by auto
    moreover from Cons all have "js_whitespace c" by simp
    ultimately show ?thesis by simp
  qed
  then show "list_all js_whitespace t"
    by (simp add: list_all_iff)
next
  assume "list_all js_whitespace t"
  then show "trim t = []" by (rule trim_whitespace_only)
qed

lemma renderOf_fields [simp]:
  "r_transcription (renderOf s) = transcription s"
  "r_notes (renderOf s) = notes s"
  "r_activeAiResponse (renderOf s) = activeAiResponse s"
  by (simp_all add: renderOf_def)

lemma finalNotesIn_renderOf: "finalNotesIn (renderOf s) = finalNotesOf s"
  by (simp add: finalNotesIn_def finalNotesOf_def split: option.split)

lemma stopSession_history:
  "sessionHistory (stopSession uuid remote localeNow now s) =
     \<lparr>s_id = uuid (uuidCalls s),
      s_title = fst (fst (generateSessionReportAndTitle remote localeNow
                            (transcription s) (finalNotesOf s))),
      s_date = now, s_transcription = transcription s, s_notes = finalNotesOf s,
      s_report = snd (fst (generateSessionReportAndTitle remote localeNow
                             (transcription s) (finalNotesOf s)))\<rparr>
     # sessionHistory s"
  by (simp add: stopSession_def stopSessionIn_def finalNotesIn_renderOf
        Let_def split: prod.split)

lemma onError_history:
  "sessionHistory (onError uuid remote localeNow now s) =
     \<lparr>s_id = uuid (uuidCalls s),
      s_title = fst (fst (generateSessionReportAndTitle remote localeNow
                            (r_transcription (startRender s)) (finalNotesIn (startRender s)))),
      s_date = now, s_transcription = r_transcription (startRender s),
      s_notes = finalNotesIn (startRender s),
      s_report = snd (fst (generateSessionReportAndTitle remote localeNow
                             (r_transcription (startRender s))
                             (finalNotesIn (startRender s))))\<rparr>
     # sessionHistory s"
  by (simp add: onError_def stopSessionIn_def Let_def split: prod.split)

lemma stopSession_prompts:
  "prompts (stopSession uuid remote localeNow now s) =
     prompts s @ snd (generateSessionReportAndTitle remote localeNow
                        (transcription s) (finalNotesOf s))"
  by (simp add: stopSession_def stopSessionIn_def finalNotesIn_renderOf
        Let_def split: prod.split)

subsection \<open>Identifiers are never reused\<close>

lemma uuid_unused:
  fixes uuid :: "nat \<Rightarrow> string"
  shows "inj uuid \<Longrightarrow> uuid n \<notin> uuid ` {..<n}"
  by (auto simp: inj_eq)

lemma drawn_mono:
  fixes uuid :: "nat \<Rightarrow> string"
  shows "uuid ` {..<n} \<subseteq> uuid ` {..<Suc n}"
  by auto

lemma finalNotesOf_simps [simp]:
  "finalNotesOf (s\<lparr>uuidCalls := k\<rparr>) = finalNotesOf s"
  "finalNotesOf (speak cfg text s) = finalNotesOf s"
  "finalNotesOf (s\<lparr>transcription := t\<rparr>) = finalNotesOf s"
  "finalNotesOf (s\<lparr>timeLeft := n\<rparr>) = finalNotesOf s"
  "finalNotesOf (s\<lparr>error := e\<rparr>) = finalNotesOf s"
  by (simp_all add: finalNotesOf_def split: option.split)

lemma notesFresh_handleFunctionCall:
  assumes "inj uuid" "notesFresh uuid s" "handleFunctionCall cfg uuid s fc = Inr s'"
  shows "notesFresh uuid s'"
proof -
  from assms(2) have d: "distinct (map n_id (finalNotesOf s))"
    and sub: "n_id ` set (finalNotesOf s) \<subseteq> uuid ` {..<uuidCalls s}"
    by (simp_all add: notesFresh_def)
  from sub have sub': "n_id ` set (finalNotesOf s) \<subseteq> uuid ` {..<Suc (uuidCalls s)}"
    using drawn_mono [of uuid "uuidCalls s"] by blast
  from sub uuid_unused [OF assms(1), of "uuidCalls s"]
  have new: "uuid (uuidCalls s) \<notin> n_id ` set (finalNotesOf s)"
    by blast
  show ?thesis
  proof (cases rule: handleFunctionCall_cases [of fc cfg uuid s])
    case throws
    with assms(3) show ?thesis by simp
  next
    case tip
    with assms(3)
    have "s' = speak cfg (''Nota a'' @ [CHR 0xF1] @ ''adida: '' @ the (arg fc ''tip''))
                (s\<lparr>uuidCalls := Suc (uuidCalls s),
                   notes := notes s @ tipNotes uuid (uuidCalls s) [fc]\<rparr>)"
      by simp
    with d sub' new show ?thesis
      by (auto simp: notesFresh_def finalNotesOf_def speak_def split: option.splits)
  next
    case qa
    with assms(3)
    have "s' = speak cfg (the (arg fc ''answer''))
                (s\<lparr>uuidCalls := Suc (uuidCalls s),
                   activeAiResponse := Some (qaNote uuid (uuidCalls s) fc)\<rparr>)"
      by simp
    with d sub' new show ?thesis
      by (auto simp: notesFresh_def finalNotesOf_def qaNote_def speak_def
            split: option.splits)
  next
    case ctx
    with assms(3)
    have "s' = speak cfg (the (arg fc ''topic'') @ '': '' @ the (arg fc ''explanation''))
                (s\<lparr>uuidCalls := Suc (uuidCalls s),
                   activeAiResponse := Some (contextNote uuid (uuidCalls s) fc)\<rparr>)"
      by simp
    with d sub' new show ?thesis
      by (auto simp: notesFresh_def finalNotesOf_def contextNote_def speak_def
            split: option.splits)
  next
    case dropped
    with assms(2,3) show ?thesis by simp
  qed
qed

lemma historyFresh_mono:
  assumes "historyFresh uuid h s" "sessionHistory s' = sessionHistory s"
    "uuidCalls s \<le> uuidCalls s'"
  shows "historyFresh uuid h s'"
proof -
  from assms(3) have "uuid ` {..<uuidCalls s} \<subseteq> uuid ` {..<uuidCalls s'}"
    by (intro image_mono) auto
  with assms(1,2) show ?thesis
    unfolding historyFresh_def by auto
qed

lemma fresh_handleFunctionCalls:
  assumes "inj uuid"
  shows "notesFresh uuid s \<Longrightarrow> historyFresh uuid h s \<Longrightarrow>
         notesFresh uuid (fst (handleFunctionCalls cfg uuid s fcs))
         \<and> historyFresh uuid h (fst (handleFunctionCalls cfg uuid s fcs))"
proof (induction fcs arbitrary: s)
  case Nil
  then show ?case by simp
next
  case (Cons fc fcs)
  show ?case
  proof (cases "handleFunctionCall cfg uuid s fc")
    case (Inl e)
    with Cons.prems show ?thesis by simp
  next
    case (Inr s1)
    have nf: "notesFresh uuid s1"
      using assms Cons.prems(1) Inr by (rule notesFresh_handleFunctionCall)
    have "sessionHistory s1 = sessionHistory s" and "uuidCalls s \<le> uuidCalls s1"
      using handleFunctionCall_frame [OF Inr] by simp_all
    with Cons.prems(2) have hf: "historyFresh uuid h s1"
      by (rule historyFresh_mono)
    have "handleFunctionCalls cfg uuid s (fc # fcs) = handleFunctionCalls cfg uuid s1 fcs"
      using Inr by simp
    with Cons.IH [OF nf hf] show ?thesis by simp
  qed
qed

lemma fresh_transcription_update:
  "notesFresh uuid (s\<lparr>transcription := t\<rparr>) = notesFresh uuid s"
  "historyFresh uuid h (s\<lparr>transcription := t\<rparr>) = historyFresh uuid h s"
  by (simp_all add: notesFresh_def historyFresh_def)

lemma fresh_stateAfter:
  assumes "inj uuid" "notesFresh uuid s" "historyFresh uuid h s"
  shows "notesFresh uuid (stateAfter cfg uuid s m)
         \<and> historyFresh uuid h (stateAfter cfg uuid s m)"
  using assms(2,3) fresh_handleFunctionCalls [OF assms(1)]
  by (simp add: stateAfter_def onMessage_def Let_def fresh_transcription_update
        split: option.split)

lemma fresh_handleArchiveNote:
  assumes "notesFresh uuid s" "historyFresh uuid h s"
  shows "notesFresh uuid (handleArchiveNote s) \<and> historyFresh uuid h (handleArchiveNote s)"
  using assms
  by (auto simp: handleArchiveNote_def notesFresh_def historyFresh_def finalNotesOf_def
        split: option.splits)

lemma fresh_startSession:
  assumes "historyFresh uuid h s"
  shows "notesFresh uuid (startSession cfg acq s)
         \<and> historyFresh uuid h (startSession cfg acq s)"
  using assms
  by (cases acq)
     (simp_all add: startSession_def startSessionReset_def startSessionAcquire_def
        notesFresh_def historyFresh_def finalNotesOf_def)

lemma fresh_stopSessionIn:
  assumes "historyFresh uuid h s"
  shows "notesFresh uuid (stopSessionIn uuid remote localeNow now r s)
         \<and> historyFresh uuid h (stopSessionIn uuid remote localeNow now r s)"
proof -
  have "uuid ` {..<uuidCalls s} \<subseteq> uuid ` {..<Suc (uuidCalls s)}"
    by (rule drawn_mono)
  with assms show ?thesis
    by (auto simp: stopSessionIn_def Let_def notesFresh_def historyFresh_def finalNotesOf_def
          split: prod.split)
qed

lemma fresh_stopSession:
  assumes "historyFresh uuid h s"
  shows "notesFresh uuid (stopSession uuid remote localeNow now s)
         \<and> historyFresh uuid h (stopSession uuid remote localeNow now s)"
  unfolding stopSession_def using assms by (rule fresh_stopSessionIn)

lemma fresh_onError:
  assumes "historyFresh uuid h s"
  shows "notesFresh uuid (onError uuid remote localeNow now s)
         \<and> historyFresh uuid h (onError uuid remote localeNow now s)"
  unfolding onError_def
  by (rule fresh_stopSessionIn) (use assms in \<open>simp add: historyFresh_def\<close>)

lemma fresh_step:
  assumes "inj uuid" "notesFresh uuid s" "historyFresh uuid h s"
  shows "notesFresh uuid (step uuid s ev) \<and> historyFresh uuid h (step uuid s ev)"
proof (cases ev)
  case (Start cfg acq)
  with assms(3) show ?thesis by (simp add: fresh_startSession)
next
  case (Message cfg m)
  with assms show ?thesis by (simp add: fresh_stateAfter)
next
  case Archive
  with assms show ?thesis by (simp add: fresh_handleArchiveNote)
next
  case Tick
  with assms(2,3) show ?thesis
    by (simp add: notesFresh_def historyFresh_def)
next
  case (Stop remote localeNow now)
  with assms(3) show ?thesis by (simp add: fresh_stopSession)
next
  case (ChannelError remote localeNow now)
  with assms(3) show ?thesis by (simp add: fresh_onError)
qed

lemma fresh_foldl_step:
  assumes "inj uuid"
  shows "notesFresh uuid s \<Longrightarrow> historyFresh uuid h s \<Longrightarrow>
         notesFresh uuid (foldl (step uuid) s evs)
         \<and> historyFresh uuid h (foldl (step uuid) s evs)"
proof (induction evs arbitrary: s)
  case Nil
  then show ?case by simp
next
  case (Cons ev evs)
  from fresh_step [OF assms Cons.prems, of ev] Cons.IH [of "step uuid s ev"]
  show ?case by simp
qed

lemma fresh_run:
  assumes "inj uuid"
  shows "notesFresh uuid (run uuid h evs) \<and> historyFresh uuid h (run uuid h evs)"
  unfolding run_def
  by (rule fresh_foldl_step [OF assms])
     (simp_all add: notesFresh_def historyFresh_def initialState_def finalNotesOf_def)

lemma inj_sampleUuid: "inj sampleUuid"
  by (simp add: inj_def sampleUuid_def)

section \<open>Transcript\<close>

text \<open>
  C2 (as amended). The transcript grows by appending: a transcript delta appends its text,
  a turn completion appends one space (neither throws), and a tool call does not touch it.
  From the empty transcript, the delta "Hola", a turn completion and the delta " mundo",
  in this order, give "Hola  mundo", with two spaces in the middle and none at the end;
  the text "Hola mundo " is what the two deltas followed by the turn completion give.
\<close>

theorem transcript_append:
  "transcription (stateAfter cfg uuid s (transcriptDelta text)) = transcription s @ text
   \<and> transcription (stateAfter cfg uuid s turnCompleteMsg) = transcription s @ '' ''
   \<and> transcription (stateAfter cfg uuid s (toolCall fcs)) = transcription s
   \<and> snd (onMessage cfg uuid s (transcriptDelta text)) = None
   \<and> snd (onMessage cfg uuid s turnCompleteMsg) = None
   \<and> transcription
        (foldl (stateAfter cfg uuid) (initialState h)
           [transcriptDelta ''Hola'', turnCompleteMsg, transcriptDelta '' mundo''])
      = ''Hola  mundo''
   \<and> transcription
        (foldl (stateAfter cfg uuid) (initialState h)
           [transcriptDelta ''Hola'', transcriptDelta '' mundo'', turnCompleteMsg])
      = ''Hola mundo ''"
  by (simp add: stateAfter_transcription onMessage_def transcriptDelta_def
        turnCompleteMsg_def toolCall_def initialState_def)

theorem transcript_scenario_counterexample:
  "transcription
     (foldl (stateAfter defaultSettings sampleUuid) (initialState [])
        [transcriptDelta ''Hola'', turnCompleteMsg, transcriptDelta '' mundo''])
   \<noteq> ''Hola mundo ''"
  by (simp add: stateAfter_transcription transcriptDelta_def turnCompleteMsg_def
        initialState_def)

section \<open>Malformed tool calls\<close>

text \<open>
  A malformed call whose arguments object is there, or whose name is not recognised, is
  dropped: the loop body returns the state it was given, so no note is made, the
  transcript, the archived notes and the active note stay as they were, the error cell is
  untouched and nothing is spoken. An event made of such calls only leaves the whole state
  unchanged and throws nothing.
\<close>

lemma malformed_call_dropped:
  "(malformed fc \<and> (fc_args fc \<noteq> None \<or> \<not> recognised fc) \<longrightarrow>
      handleFunctionCall cfg uuid s fc = Inr s)
   \<and> (list_all (\<lambda>fc. malformed fc \<and> (fc_args fc \<noteq> None \<or> \<not> recognised fc)) fcs \<longrightarrow>
      onMessage cfg uuid s (toolCall fcs) = (s, None))"
  by (simp add: handleFunctionCall_malformed handleFunctionCalls_malformed
        onMessage_def toolCall_def)

lemma malformed_call_dropped_example:
  "onMessage defaultSettings sampleUuid sampleState
     (toolCall [tipMissing, answerMissing, unknownName]) = (sampleState, None)"
proof -
  have m1: "malformed tipMissing \<and> fc_args tipMissing \<noteq> None"
    by (simp add: malformed_def tipMissing_def allDeclarations_def truthy_def arg_def
          addNoteFunctionDeclaration_def)
  have m2: "malformed answerMissing \<and> fc_args answerMissing \<noteq> None"
    by (simp add: malformed_def answerMissing_def allDeclarations_def truthy_def arg_def
          addNoteFunctionDeclaration_def answerQuestionFunctionDeclaration_def)
  have m3: "malformed unknownName \<and> fc_args unknownName \<noteq> None"
    by (simp add: malformed_def unknownName_def allDeclarations_def
          addNoteFunctionDeclaration_def answerQuestionFunctionDeclaration_def
          provideContextFunctionDeclaration_def)
  from m1 m2 m3 show ?thesis
    by (intro malformed_call_dropped [THEN conjunct2, rule_format]) simp
qed

text \<open>
  C6. A tool call that lacks a required field, or whose name is not recognised, should be
  dropped silently. It is when the arguments object is there (above). A call with a
  recognised name and no arguments object lacks every required field, and it is not
  dropped silently: the condition of its branch reads a property of the absent object,
  a TypeError leaves the loop body and the callback, and the rest of the event is not
  processed.
\<close>

theorem absent_arguments_throw:
  "malformed argsMissing
   \<and> handleFunctionCall defaultSettings sampleUuid sampleState argsMissing = Inl TypeError
   \<and> onMessage defaultSettings sampleUuid sampleState (toolCall [argsMissing])
       = (sampleState, Some TypeError)
   \<and> onMessage defaultSettings sampleUuid sampleState (toolCall [argsMissing, sampleAnswer])
       = (sampleState, Some TypeError)"
proof -
  have m: "malformed argsMissing"
    by (simp add: malformed_def argsMissing_def allDeclarations_def truthy_def arg_def
          addNoteFunctionDeclaration_def)
  have "recognised argsMissing" and "fc_args argsMissing = None"
    by (simp_all add: recognised_iff argsMissing_def)
  then have t: "handleFunctionCall defaultSettings sampleUuid sampleState argsMissing
                  = Inl TypeError"
    by (rule handleFunctionCall_throws)
  with m show ?thesis
    by (simp add: onMessage_def toolCall_def)
qed

section \<open>Frame of a tool call\<close>

text \<open>
  C9. A valid addNote call is processed without an exception and changes neither the
  active note nor the transcript; a valid answerQuestion or provideContext call is
  processed without an exception and changes neither the archived notes nor the
  transcript.
\<close>

theorem tool_call_frame:
  "(validAddNote fc \<longrightarrow>
      (\<exists>s'. handleFunctionCall cfg uuid s fc = Inr s'
            \<and> activeAiResponse s' = activeAiResponse s
            \<and> transcription s' = transcription s))
   \<and> (validAnswerQuestion fc \<or> validProvideContext fc \<longrightarrow>
      (\<exists>s'. handleFunctionCall cfg uuid s fc = Inr s'
            \<and> notes s' = notes s
            \<and> transcription s' = transcription s))"
  by (auto simp: handleFunctionCall_addNote handleFunctionCall_answerQuestion
        handleFunctionCall_provideContext)

theorem tool_call_frame_witness:
  "validAddNote sampleTip
   \<and> (\<exists>s'. handleFunctionCall defaultSettings sampleUuid sampleState sampleTip = Inr s'
           \<and> activeAiResponse s' = Some (contextNote sampleUuid 1 sampleContext)
           \<and> transcription s' = ''Hola'')
   \<and> (validAnswerQuestion sampleAnswer \<or> validProvideContext sampleAnswer)
   \<and> (\<exists>s'. handleFunctionCall defaultSettings sampleUuid sampleState sampleAnswer = Inr s'
           \<and> notes s' = tipNotes sampleUuid 0 [sampleTip]
           \<and> transcription s' = ''Hola'')"
proof -
  have st: "activeAiResponse sampleState = Some (contextNote sampleUuid 1 sampleContext)"
    "transcription sampleState = ''Hola''"
    "notes sampleState = tipNotes sampleUuid 0 [sampleTip]"
    by (simp_all add: sampleState_eq)
  from sample_calls_valid
    tool_call_frame [of sampleTip defaultSettings sampleUuid sampleState]
    tool_call_frame [of sampleAnswer defaultSettings sampleUuid sampleState]
  show ?thesis
    unfolding st by blast
qed

section \<open>Tips\<close>

text \<open>
  Over any sequence of tool-call events whose calls are all addNote calls that carry an
  arguments object, every valid call (non-empty tip) appends one tip note to the archived
  notes, in call order, and the active note is never touched: the archived notes
  afterwards are the old ones followed by the tips of the valid calls, and their number
  grows by the number of valid calls.
\<close>

lemma addNote_sequence:
  "list_all (\<lambda>m. list_all (\<lambda>fc. fc_name fc = ''addNote'' \<and> fc_args fc \<noteq> None)
                     (callsOf m)) ms \<Longrightarrow>
   notes (foldl (stateAfter cfg uuid) s ms) =
     notes s @ tipNotes uuid (uuidCalls s) (filter validAddNote (concat (map callsOf ms)))
   \<and> length (notes (foldl (stateAfter cfg uuid) s ms)) =
       length (notes s) + length (filter validAddNote (concat (map callsOf ms)))
   \<and> map n_content (notes (foldl (stateAfter cfg uuid) s ms)) =
       map n_content (notes s)
       @ map (\<lambda>fc. the (arg fc ''tip'')) (filter validAddNote (concat (map callsOf ms)))
   \<and> activeAiResponse (foldl (stateAfter cfg uuid) s ms) = activeAiResponse s"
proof -
  assume only: "list_all (\<lambda>m. list_all (\<lambda>fc. fc_name fc = ''addNote'' \<and> fc_args fc \<noteq> None)
                     (callsOf m)) ms"
  note run = messages_addNote [OF only, of cfg uuid s]
  from run have n: "notes (foldl (stateAfter cfg uuid) s ms) =
      notes s @ tipNotes uuid (uuidCalls s) (filter validAddNote (concat (map callsOf ms)))"
    by simp
  from run have a: "activeAiResponse (foldl (stateAfter cfg uuid) s ms) = activeAiResponse s"
    by simp
  show ?thesis
    by (simp only: n a length_append length_tipNotes map_append content_tipNotes simp_thms)
qed

lemma addNote_sequence_example:
  "notes (foldl (stateAfter defaultSettings sampleUuid) sampleState
            [toolCall [sampleTip, tipMissing], toolCall [sampleTip]])
     = tipNotes sampleUuid 0 [sampleTip] @ tipNotes sampleUuid 2 [sampleTip, sampleTip]
   \<and> length (notes (foldl (stateAfter defaultSettings sampleUuid) (initialState [])
               [toolCall [sampleTip, tipMissing], toolCall [sampleTip]])) = 2
   \<and> activeAiResponse (foldl (stateAfter defaultSettings sampleUuid) sampleState
               [toolCall [sampleTip, tipMissing], toolCall [sampleTip]])
       = Some (contextNote sampleUuid 1 sampleContext)"
proof -
  have only: "list_all (\<lambda>m. list_all (\<lambda>fc. fc_name fc = ''addNote'' \<and> fc_args fc \<noteq> None)
                                (callsOf m))
     [toolCall [sampleTip, tipMissing], toolCall [sampleTip]]"
    by (simp add: callsOf_def toolCall_def sampleTip_def tipMissing_def)
  have valid: "filter validAddNote
      (concat (map callsOf [toolCall [sampleTip, tipMissing], toolCall [sampleTip]]))
      = [sampleTip, sampleTip]"
    by (simp add: callsOf_def toolCall_def validAddNote_def sampleTip_def tipMissing_def
          truthy_def arg_def)
  note mid = addNote_sequence [OF only, of defaultSettings sampleUuid sampleState,
      unfolded valid]
  note fresh = addNote_sequence [OF only, of defaultSettings sampleUuid "initialState []",
      unfolded valid]
  have "notes sampleState = tipNotes sampleUuid 0 [sampleTip]"
    and "uuidCalls sampleState = 2"
    and "activeAiResponse sampleState = Some (contextNote sampleUuid 1 sampleContext)"
    and "notes (initialState []) = []"
    by (simp_all add: sampleState_eq initialState_def)
  with mid fresh show ?thesis
    by simp
qed

text \<open>
  C5. Over every sequence of addNote calls, each valid call should append one tip note, so
  that the archived notes are as many as the valid calls. They are when every call
  carries an arguments object (above). An addNote call without one makes the loop body
  throw, and the calls that follow it in the same event are not processed: the event made
  of such a call followed by a valid call holds one valid call and leaves no note.
\<close>

theorem addNote_lost_after_absent_arguments:
  "list_all (\<lambda>fc. fc_name fc = ''addNote'') [argsMissing, sampleTip]
   \<and> filter validAddNote [argsMissing, sampleTip] = [sampleTip]
   \<and> onMessage defaultSettings sampleUuid (initialState [])
         (toolCall [argsMissing, sampleTip]) = (initialState [], Some TypeError)
   \<and> notes (stateAfter defaultSettings sampleUuid (initialState [])
               (toolCall [argsMissing, sampleTip])) = []"
proof -
  have names: "list_all (\<lambda>fc. fc_name fc = ''addNote'') [argsMissing, sampleTip]"
    by (simp add: argsMissing_def sampleTip_def)
  have valid: "filter validAddNote [argsMissing, sampleTip] = [sampleTip]"
    by (simp add: validAddNote_def argsMissing_def sampleTip_def truthy_def arg_def)
  have "recognised argsMissing" and "fc_args argsMissing = None"
    by (simp_all add: recognised_iff argsMissing_def)
  then have "handleFunctionCall defaultSettings sampleUuid (initialState []) argsMissing
               = Inl TypeError"
    by (rule handleFunctionCall_throws)
  then have ev: "onMessage defaultSettings sampleUuid (initialState [])
         (toolCall [argsMissing, sampleTip]) = (initialState [], Some TypeError)"
    by (simp add: onMessage_def toolCall_def)
  have "notes (initialState []) = []"
    by (simp add: initialState_def)
  with names valid ev show ?thesis
    by (simp add: stateAfter_def)
qed

section \<open>Finalising a session\<close>

text \<open>
  C4. When the transcript is empty or consists of white space only, no request is sent to
  the remote service, and the result is the same whatever the remote service would have
  answered: the title is the session title built from the current date and the report is
  the fixed text saying that nothing was recorded. The record that stopSession puts in
  the history carries that title and report, and stopSession adds nothing to the log of
  requests.
\<close>

theorem empty_transcript_no_request:
  "list_all js_whitespace t \<Longrightarrow>
   generateSessionReportAndTitle remote localeNow t ns =
     ((''Sesi'' @ [CHR 0xF3] @ ''n del '' @ localeNow,
       ''No se grab'' @ [CHR 0xF3] @ '' ninguna transcripci'' @ [CHR 0xF3] @ ''n.''), [])
   \<and> (transcription s = t \<longrightarrow>
        prompts (stopSession uuid remote localeNow now s) = prompts s
        \<and> s_title (hd (sessionHistory (stopSession uuid remote localeNow now s)))
            = ''Sesi'' @ [CHR 0xF3] @ ''n del '' @ localeNow
        \<and> s_report (hd (sessionHistory (stopSession uuid remote localeNow now s)))
            = ''No se grab'' @ [CHR 0xF3] @ '' ninguna transcripci'' @ [CHR 0xF3] @ ''n.'')"
  by (simp add: trim_whitespace_only generateSessionReportAndTitle_def sessionTitle_def
        stopSession_history stopSession_prompts)

theorem empty_transcript_no_request_witness:
  "list_all js_whitespace ('' '' @ [CHR 0x0A])
   \<and> generateSessionReportAndTitle (ParsedObject sampleSummary) sampleDate
         ('' '' @ [CHR 0x0A]) (tipNotes sampleUuid 0 [sampleTip])
       = ((''Sesi'' @ [CHR 0xF3] @ ''n del 2/11/2026, 10:00:00'',
           ''No se grab'' @ [CHR 0xF3] @ '' ninguna transcripci'' @ [CHR 0xF3] @ ''n.''), [])
   \<and> transcription (initialState []) = []
   \<and> prompts (stopSession sampleUuid (ParsedObject sampleSummary) sampleDate 1793613600000
                  (initialState [])) = []
   \<and> s_report (hd (sessionHistory
         (stopSession sampleUuid (ParsedObject sampleSummary) sampleDate 1793613600000
            (initialState []))))
       = ''No se grab'' @ [CHR 0xF3] @ '' ninguna transcripci'' @ [CHR 0xF3] @ ''n.''"
proof -
  have ws: "list_all js_whitespace ('' '' @ [CHR 0x0A])"
    by (simp add: js_whitespace_def)
  have emp: "list_all js_whitespace []"
    by simp
  have tr: "transcription (initialState []) = []" "prompts (initialState []) = []"
    by (simp_all add: initialState_def)
  show ?thesis
    using ws tr
      empty_transcript_no_request [OF ws, of "ParsedObject sampleSummary" sampleDate
        "tipNotes sampleUuid 0 [sampleTip]" "initialState []"]
      empty_transcript_no_request [OF emp, of "ParsedObject sampleSummary" sampleDate
        "[]" "initialState []" sampleUuid 1793613600000]
    by (simp add: sampleDate_def)
qed

text \<open>
  C3 (as amended). For a transcript that is not blank, one request is sent. If the request
  is rejected, or the response is not valid JSON, or it parses to \<open>null\<close>, the exception
  is caught and the result is the session title followed by the marker (Error), with the
  fixed error report. If the response parses to an object, a missing (or empty) title is
  replaced by the plain session title, without a marker, and a missing (or empty) report
  by the fixed text saying that the report could not be generated, each on its own. In
  every case a value is returned.
\<close>

theorem summary_failure_result:
  "\<not> list_all js_whitespace t \<Longrightarrow>
   (remote \<in> {Rejected, Unparseable, ParsedNull} \<longrightarrow>
      generateSessionReportAndTitle remote localeNow t ns =
        ((''Sesi'' @ [CHR 0xF3] @ ''n del '' @ localeNow @ '' (Error)'',
          ''Ocurri'' @ [CHR 0xF3] @ '' un error al generar el informe de la sesi''
          @ [CHR 0xF3] @ ''n.''),
         [prompt t ns]))
   \<and> generateSessionReportAndTitle (ParsedObject result) localeNow t ns =
        ((if truthy (result ''title'') then the (result ''title'')
          else ''Sesi'' @ [CHR 0xF3] @ ''n del '' @ localeNow,
          if truthy (result ''report'') then the (result ''report'')
          else ''No se pudo generar el informe.''),
         [prompt t ns])"
proof -
  assume "\<not> list_all js_whitespace t"
  then have "trim t \<noteq> []"
    by (simp add: trim_empty_iff)
  then show ?thesis
    by (auto simp: generateSessionReportAndTitle_def requestSummary_def sessionTitle_def
          js_or_def)
qed

theorem summary_failure_result_witness:
  "\<not> list_all js_whitespace ''Hola''
   \<and> Unparseable \<in> {Rejected, Unparseable, ParsedNull}
   \<and> fst (generateSessionReportAndTitle Unparseable sampleDate ''Hola'' []) =
        (''Sesi'' @ [CHR 0xF3] @ ''n del 2/11/2026, 10:00:00 (Error)'',
         ''Ocurri'' @ [CHR 0xF3] @ '' un error al generar el informe de la sesi''
         @ [CHR 0xF3] @ ''n.'')
   \<and> fst (generateSessionReportAndTitle (ParsedObject sampleSummary) sampleDate ''Hola'' [])
       = (''Clase de cardiolog'' @ [CHR 0xED] @ ''a'', ''# Informe'')
   \<and> fst (generateSessionReportAndTitle (ParsedObject [''report'' \<mapsto> ''# Informe''])
            sampleDate ''Hola'' [])
       = (''Sesi'' @ [CHR 0xF3] @ ''n del 2/11/2026, 10:00:00'', ''# Informe'')"
proof -
  have nb: "\<not> list_all js_whitespace ''Hola''"
    by (simp add: js_whitespace_def)
  show ?thesis
    using nb
      summary_failure_result [OF nb, of Unparseable sampleDate "[]" sampleSummary]
      summary_failure_result [OF nb, of Unparseable sampleDate "[]"
        "[''report'' \<mapsto> ''# Informe'']"]
    by (simp add: sampleDate_def sampleSummary_def truthy_def)
qed

theorem summary_missing_fields_counterexample:
  "\<not> list_all js_whitespace ''Hola''
   \<and> generateSessionReportAndTitle (ParsedObject Map.empty) sampleDate ''Hola'' [] =
       ((''Sesi'' @ [CHR 0xF3] @ ''n del 2/11/2026, 10:00:00'',
         ''No se pudo generar el informe.''),
        [prompt ''Hola'' []])
   \<and> fst (fst (generateSessionReportAndTitle (ParsedObject Map.empty) sampleDate ''Hola'' []))
       \<noteq> ''Sesi'' @ [CHR 0xF3] @ ''n del 2/11/2026, 10:00:00 (Error)''
   \<and> snd (fst (generateSessionReportAndTitle (ParsedObject Map.empty) sampleDate ''Hola'' []))
       \<noteq> ''Ocurri'' @ [CHR 0xF3] @ '' un error al generar el informe de la sesi''
            @ [CHR 0xF3] @ ''n.''"
  by (simp add: generateSessionReportAndTitle_def requestSummary_def sessionTitle_def
        js_or_def truthy_def trim_def js_whitespace_def sampleDate_def)

section \<open>Starting a session\<close>

text \<open>
  C10. The first, synchronous line of startSession clears the error, the transcript, the
  archived notes and the active note and sets the countdown to 600 seconds; the
  acquisition of the microphone and of the channel runs on the state so reset and writes
  none of the transcript, the notes, the active note and the countdown. Whatever the
  state before and whether or not the acquisition succeeds, the session starts with an
  empty transcript, no notes and no active card; the error is empty until the acquisition
  fails.
\<close>

theorem startSession_resets:
  "startSession cfg acq s = startSessionAcquire cfg acq (renderOf s) (startSessionReset s)
   \<and> transcription (startSessionReset s) = []
   \<and> notes (startSessionReset s) = []
   \<and> activeAiResponse (startSessionReset s) = None
   \<and> error (startSessionReset s) = None
   \<and> timeLeft (startSessionReset s) = 600
   \<and> sessionPromiseRef (startSessionReset s) = sessionPromiseRef s
   \<and> transcription (startSession cfg acq s) = []
   \<and> notes (startSession cfg acq s) = []
   \<and> activeAiResponse (startSession cfg acq s) = None
   \<and> timeLeft (startSession cfg acq s) = 600
   \<and> error (startSession cfg Acquired s) = None"
  by (cases acq)
     (simp_all add: startSession_def startSessionReset_def startSessionAcquire_def
        MAX_SESSION_TIME_SECONDS_def)

section \<open>The context tool\<close>

text \<open>
  C7 (as amended). The provideContext schema is among the tools a session is opened with
  exactly when the contextualize setting is enabled at session start; addNote and
  answerQuestion are always among them. The handler consults neither the setting nor the
  declared tools: every provideContext call with a non-empty topic and a non-empty
  explanation is processed without an exception, makes a context note and sets it active.
\<close>

theorem provideContext_declared_and_handled:
  "sessionPromiseRef (startSession cfg Acquired s0) = Some (sessionTools cfg)
   \<and> (provideContextFunctionDeclaration \<in> set (sessionTools cfg)) = isContextualizeEnabled cfg
   \<and> addNoteFunctionDeclaration \<in> set (sessionTools cfg)
   \<and> answerQuestionFunctionDeclaration \<in> set (sessionTools cfg)
   \<and> (validProvideContext fc \<longrightarrow>
        (\<exists>s'. handleFunctionCall cfg uuid s fc = Inr s'
              \<and> activeAiResponse s' = Some (contextNote uuid (uuidCalls s) fc)))"
  by (simp add: startSession_def startSessionReset_def startSessionAcquire_def
        sessionTools_def addNoteFunctionDeclaration_def answerQuestionFunctionDeclaration_def
        provideContextFunctionDeclaration_def handleFunctionCall_provideContext)

theorem provideContext_declared_and_handled_witness:
  "validProvideContext sampleContext
   \<and> isContextualizeEnabled defaultSettings
   \<and> provideContextFunctionDeclaration \<in> set (sessionTools defaultSettings)
   \<and> (\<exists>s'. handleFunctionCall defaultSettings sampleUuid sampleState sampleContext = Inr s'
           \<and> activeAiResponse s' = Some (contextNote sampleUuid 2 sampleContext))"
proof -
  have cnt: "uuidCalls sampleState = 2"
    by (simp add: sampleState_eq)
  from sample_calls_valid(3)
    provideContext_declared_and_handled [of defaultSettings "initialState []" sampleContext
      sampleUuid sampleState]
  show ?thesis
    unfolding cnt by (simp add: defaultSettings_def)
qed

theorem provideContext_undeclared_counterexample:
  "\<not> isContextualizeEnabled contextOff
   \<and> sessionPromiseRef (startSession contextOff Acquired (initialState []))
       = Some [addNoteFunctionDeclaration, answerQuestionFunctionDeclaration]
   \<and> provideContextFunctionDeclaration
       \<notin> set [addNoteFunctionDeclaration, answerQuestionFunctionDeclaration]
   \<and> snd (onMessage contextOff sampleUuid
             (startSession contextOff Acquired (initialState []))
             (toolCall [sampleContext])) = None
   \<and> activeAiResponse
        (stateAfter contextOff sampleUuid (startSession contextOff Acquired (initialState []))
           (toolCall [sampleContext]))
       = Some \<lparr>n_id = ''u'', n_type = Context, n_content = ''Compresion'',
               n_question = None, n_topic = Some ''Taponamiento''\<rparr>"
  by (simp add: contextOff_def startSession_def startSessionReset_def renderOf_def
        startSessionAcquire_def sessionTools_def initialState_def stateAfter_def
        onMessage_def toolCall_def handleFunctionCall_def branchCondition_def arg_def
        sampleContext_def truthy_def speak_def
        sampleUuid_def addNoteFunctionDeclaration_def answerQuestionFunctionDeclaration_def
        provideContextFunctionDeclaration_def Let_def)

section \<open>The active note\<close>

text \<open>
  C1. The active note is a single optional cell, so there is never more than one. In
  every state the component can reach that has an active note, a valid answerQuestion or
  provideContext call is processed without an exception and puts the new qa or context
  note in the cell; the note that was active is neither the active note nor one of the
  archived notes afterwards, and the archived notes are the same as before. Identifiers
  are taken never to repeat.
\<close>

theorem active_note_replaced:
  assumes "inj uuid"
    and "s = run uuid h evs"
    and "activeAiResponse s = Some old"
    and "validAnswerQuestion fc \<or> validProvideContext fc"
  shows "\<exists>s'. handleFunctionCall cfg uuid s fc = Inr s'
           \<and> activeAiResponse s' =
               Some (if validAnswerQuestion fc then qaNote uuid (uuidCalls s) fc
                     else contextNote uuid (uuidCalls s) fc)
           \<and> activeAiResponse s' \<noteq> Some old
           \<and> old \<notin> set (notes s')
           \<and> old \<notin> set (finalNotesOf s')
           \<and> notes s' = notes s"
proof -
  let ?new = "if validAnswerQuestion fc then qaNote uuid (uuidCalls s) fc
              else contextNote uuid (uuidCalls s) fc"
  from assms(1,2) have fresh: "notesFresh uuid s"
    by (simp add: fresh_run)
  from assms(3) have all: "finalNotesOf s = notes s @ [old]"
    by (simp add: finalNotesOf_def)
  from fresh all have archived: "old \<notin> set (notes s)"
    by (auto simp: notesFresh_def)
  from fresh all have "n_id old \<in> uuid ` {..<uuidCalls s}"
    by (auto simp: notesFresh_def)
  with uuid_unused [OF assms(1), of "uuidCalls s"]
  have id_old: "n_id old \<noteq> uuid (uuidCalls s)"
    by auto
  have id_new: "n_id ?new = uuid (uuidCalls s)"
    by (simp add: qaNote_def contextNote_def)
  from id_old id_new have differ: "?new \<noteq> old"
    by auto
  obtain s' where step: "handleFunctionCall cfg uuid s fc = Inr s'"
    and active: "activeAiResponse s' = Some ?new" and same: "notes s' = notes s"
  proof (cases "validAnswerQuestion fc")
    case True
    from handleFunctionCall_answerQuestion [OF True, of cfg uuid s] True that
    show ?thesis by simp
  next
    case False
    with assms(4) have "validProvideContext fc" by simp
    from handleFunctionCall_provideContext [OF this, of cfg uuid s] False that
    show ?thesis by simp
  qed
  from active same have final: "finalNotesOf s' = notes s @ [?new]"
    by (simp add: finalNotesOf_def)
  from active differ have "activeAiResponse s' \<noteq> Some old"
    by simp
  moreover from same archived have "old \<notin> set (notes s')"
    by simp
  moreover from final archived differ have "old \<notin> set (finalNotesOf s')"
    by auto
  ultimately show ?thesis
    using step active same by blast
qed

theorem active_note_replaced_witness:
  "inj sampleUuid
   \<and> sampleState = run sampleUuid []
        [Start defaultSettings Acquired,
         Message defaultSettings (transcriptDelta ''Hola''),
         Message defaultSettings (toolCall [sampleTip, sampleContext])]
   \<and> activeAiResponse sampleState = Some (contextNote sampleUuid 1 sampleContext)
   \<and> (validAnswerQuestion sampleAnswer \<or> validProvideContext sampleAnswer)
   \<and> (\<exists>s'. handleFunctionCall defaultSettings sampleUuid sampleState sampleAnswer = Inr s'
           \<and> activeAiResponse s' = Some (qaNote sampleUuid 2 sampleAnswer)
           \<and> activeAiResponse s' \<noteq> Some (contextNote sampleUuid 1 sampleContext)
           \<and> contextNote sampleUuid 1 sampleContext \<notin> set (notes s')
           \<and> contextNote sampleUuid 1 sampleContext \<notin> set (finalNotesOf s')
           \<and> notes s' = tipNotes sampleUuid 0 [sampleTip])"
proof -
  have act: "activeAiResponse sampleState = Some (contextNote sampleUuid 1 sampleContext)"
    and cnt: "uuidCalls sampleState = 2"
    and arch: "notes sampleState = tipNotes sampleUuid 0 [sampleTip]"
    by (simp_all add: sampleState_eq)
  have valid: "validAnswerQuestion sampleAnswer \<or> validProvideContext sampleAnswer"
    by (simp add: sample_calls_valid)
  note inst = active_note_replaced [OF inj_sampleUuid sampleState_def act valid,
      of defaultSettings, unfolded cnt arch]
  from inst have "\<exists>s'. handleFunctionCall defaultSettings sampleUuid sampleState sampleAnswer
             = Inr s'
           \<and> activeAiResponse s' = Some (qaNote sampleUuid 2 sampleAnswer)
           \<and> activeAiResponse s' \<noteq> Some (contextNote sampleUuid 1 sampleContext)
           \<and> contextNote sampleUuid 1 sampleContext \<notin> set (notes s')
           \<and> contextNote sampleUuid 1 sampleContext \<notin> set (finalNotesOf s')
           \<and> notes s' = tipNotes sampleUuid 0 [sampleTip]"
    by (simp add: sample_calls_valid)
  with act valid inj_sampleUuid show ?thesis
    by (simp add: sampleState_def [symmetric])
qed

section \<open>The session record\<close>

text \<open>
  Whatever the remote service answers and whatever the transcript is (success, blank
  transcript or failed request), stopSession, as the stop button and the timeout call it,
  puts one new record in front of the history. The record holds the transcript of the
  session, the archived notes followed by the active note when there is one, the value of
  a new call of the identifier generator, and the current time. In every state the
  component can reach, that identifier differs from every identifier generated before, so
  from the identifier of every note in the record and of every record made earlier
  (identifiers being taken never to repeat).
\<close>

lemma session_record_contents:
  "sessionHistory (stopSession uuid remote localeNow now s) =
     hd (sessionHistory (stopSession uuid remote localeNow now s)) # sessionHistory s
   \<and> s_transcription (hd (sessionHistory (stopSession uuid remote localeNow now s)))
       = transcription s
   \<and> s_notes (hd (sessionHistory (stopSession uuid remote localeNow now s)))
       = notes s @ (case activeAiResponse s of Some a \<Rightarrow> [a] | None \<Rightarrow> [])
   \<and> s_id (hd (sessionHistory (stopSession uuid remote localeNow now s)))
       = uuid (uuidCalls s)
   \<and> uuidCalls (stopSession uuid remote localeNow now s) = Suc (uuidCalls s)
   \<and> s_date (hd (sessionHistory (stopSession uuid remote localeNow now s))) = now
   \<and> (inj uuid \<and> s = run uuid h evs \<longrightarrow>
        uuid (uuidCalls s) \<notin> uuid ` {..<uuidCalls s}
        \<and> uuid (uuidCalls s) \<notin> n_id ` set (finalNotesOf s)
        \<and> uuid (uuidCalls s) \<notin> s_id ` (set (sessionHistory s) - set h))"
proof -
  have contents:
    "sessionHistory (stopSession uuid remote localeNow now s) =
       hd (sessionHistory (stopSession uuid remote localeNow now s)) # sessionHistory s"
    "s_transcription (hd (sessionHistory (stopSession uuid remote localeNow now s)))
       = transcription s"
    "s_notes (hd (sessionHistory (stopSession uuid remote localeNow now s)))
       = notes s @ (case activeAiResponse s of Some a \<Rightarrow> [a] | None \<Rightarrow> [])"
    "s_id (hd (sessionHistory (stopSession uuid remote localeNow now s)))
       = uuid (uuidCalls s)"
    "s_date (hd (sessionHistory (stopSession uuid remote localeNow now s))) = now"
    by (simp_all add: stopSession_history finalNotesOf_def split: option.split)
  have count: "uuidCalls (stopSession uuid remote localeNow now s) = Suc (uuidCalls s)"
    by (simp add: stopSession_def stopSessionIn_def Let_def split: prod.split)
  have fresh: "uuid (uuidCalls s) \<notin> uuid ` {..<uuidCalls s}
        \<and> uuid (uuidCalls s) \<notin> n_id ` set (finalNotesOf s)
        \<and> uuid (uuidCalls s) \<notin> s_id ` (set (sessionHistory s) - set h)"
    if "inj uuid" and "s = run uuid h evs"
  proof -
    from that have "notesFresh uuid s" and "historyFresh uuid h s"
      by (simp_all add: fresh_run)
    with uuid_unused [OF that(1), of "uuidCalls s"] show ?thesis
      unfolding notesFresh_def historyFresh_def by blast
  qed
  from contents count fresh show ?thesis
    by blast
qed

lemma session_record_contents_example:
  "inj sampleUuid
   \<and> sampleState = run sampleUuid []
        [Start defaultSettings Acquired,
         Message defaultSettings (transcriptDelta ''Hola''),
         Message defaultSettings (toolCall [sampleTip, sampleContext])]
   \<and> sessionHistory (stopSession sampleUuid Rejected sampleDate 1793613600000 sampleState)
       = [hd (sessionHistory
                (stopSession sampleUuid Rejected sampleDate 1793613600000 sampleState))]
   \<and> s_transcription
        (hd (sessionHistory
               (stopSession sampleUuid Rejected sampleDate 1793613600000 sampleState)))
       = ''Hola''
   \<and> s_notes
        (hd (sessionHistory
               (stopSession sampleUuid Rejected sampleDate 1793613600000 sampleState)))
       = tipNotes sampleUuid 0 [sampleTip] @ [contextNote sampleUuid 1 sampleContext]
   \<and> s_id
        (hd (sessionHistory
               (stopSession sampleUuid Rejected sampleDate 1793613600000 sampleState)))
       = sampleUuid 2
   \<and> s_date
        (hd (sessionHistory
               (stopSession sampleUuid Rejected sampleDate 1793613600000 sampleState)))
       = 1793613600000
   \<and> sampleUuid 2 \<notin> n_id ` set (finalNotesOf sampleState)"
proof -
  have fields: "transcription sampleState = ''Hola''"
    "notes sampleState = tipNotes sampleUuid 0 [sampleTip]"
    "activeAiResponse sampleState = Some (contextNote sampleUuid 1 sampleContext)"
    "uuidCalls sampleState = 2" "sessionHistory sampleState = []"
    by (simp_all add: sampleState_eq)
  note inst = session_record_contents [of sampleUuid Rejected sampleDate 1793613600000
      sampleState "[]"
      "[Start defaultSettings Acquired,
        Message defaultSettings (transcriptDelta ''Hola''),
        Message defaultSettings (toolCall [sampleTip, sampleContext])]"]
  from inst inj_sampleUuid sampleState_def show ?thesis
    by (simp add: fields sampleState_def [symmetric])
qed

text \<open>
  C8. The record produced when a session is finalised should hold the final transcript,
  the archived notes followed by the active note, a new identifier and the current time,
  whatever the summarisation request does. The stop button and the timeout do so, as shown
  above. When the channel reports an error, the record is built by the instance of
  stopSession that belongs to the render in which the session was started: it gets a new
  identifier and the current time in the same way, but its transcript and notes are those
  of that render. In the sample session the state holds the transcript "Hola", an archived
  tip and an active card when the error arrives, and the record that enters the history
  has an empty transcript, no notes and the report saying that nothing was recorded.
\<close>

theorem channel_error_record:
  "transcription sampleState = ''Hola''
   \<and> finalNotesOf sampleState
       = tipNotes sampleUuid 0 [sampleTip] @ [contextNote sampleUuid 1 sampleContext]
   \<and> sessionHistory (onError sampleUuid Rejected sampleDate 1793613600000 sampleState) =
       [\<lparr>s_id = sampleUuid 2,
         s_title = ''Sesi'' @ [CHR 0xF3] @ ''n del 2/11/2026, 10:00:00'',
         s_date = 1793613600000, s_transcription = [], s_notes = [],
         s_report = ''No se grab'' @ [CHR 0xF3] @ '' ninguna transcripci'' @ [CHR 0xF3]
                    @ ''n.''\<rparr>]"
  by (simp add: onError_history sampleState_eq finalNotesOf_def finalNotesIn_def
        generateSessionReportAndTitle_def trim_def sessionTitle_def sampleDate_def)

end
